theory Spec2Isabelle
  imports Main
begin

section \<open>Data model\<close>

text \<open>
  The feed screen of \<^verbatim>\<open>src/components/FeedScreen.tsx\<close> and the event sink of
  \<^verbatim>\<open>lib/restaurants\<close>. A \<^verbatim>\<open>Restaurant\<close> is declared in \<^verbatim>\<open>../types\<close>; the record below
  holds the fields the two source files read (the numeric \<^verbatim>\<open>rating\<close> is display only
  and left out). The field \<^verbatim>\<open>id\<close> is named \<open>restaurant_id\<close>, since \<open>id\<close> is the
  identity function of HOL.
\<close>

record restaurant =
  restaurant_id :: string
  name :: string
  address :: string
  cuisine :: "string option"

text \<open>The union type \<^verbatim>\<open>'like' | 'skip' | 'unlike'\<close>.\<close>

datatype action = Like | Skip | Unlike

text \<open>
  One call \<^verbatim>\<open>recordInteraction(placeId, action, timeSpentMs)\<close>. The call is not
  awaited by the screen, so what the screen emits is the sequence of these calls.
\<close>

datatype interaction = RecordInteraction string action int

text \<open>
  The state of one mounted \<^verbatim>\<open>FeedScreen\<close>: its three \<^verbatim>\<open>useState\<close> cells, its two refs,
  and the calls made to \<^verbatim>\<open>recordInteraction\<close> so far, oldest first. Times are
  \<^verbatim>\<open>Date.now()\<close> readings in milliseconds; indices are JavaScript numbers, modelled as
  integers so that negative and too large indices can be written.
\<close>

record feed_screen =
  restaurants :: "restaurant list"
  loading :: bool
  error :: "string option"
  viewStartRef :: int
  currentIndexRef :: int
  interactions :: "interaction list"

text \<open>
  The state at mount: \<^verbatim>\<open>useState([])\<close>, \<^verbatim>\<open>useState(true)\<close>, \<^verbatim>\<open>useState(null)\<close>,
  \<^verbatim>\<open>useRef(Date.now())\<close> and \<^verbatim>\<open>useRef(0)\<close>.
\<close>

definition mount :: "int \<Rightarrow> feed_screen" where
  "mount now =
     \<lparr>restaurants = [], loading = True, error = None,
      viewStartRef = now, currentIndexRef = 0, interactions = []\<rparr>"

text \<open>
  \<^verbatim>\<open>restaurants[index]\<close>: the element when the index is in range, \<^verbatim>\<open>undefined\<close>
  (here \<open>None\<close>) otherwise. Reading out of range does not throw in JavaScript.
\<close>

definition item_at :: "'a list \<Rightarrow> int \<Rightarrow> 'a option" where
  "item_at xs index =
     (if 0 \<le> index \<and> index < int (length xs) then Some (xs ! nat index) else None)"

section \<open>The session tracker\<close>

text \<open>
  \<^verbatim>\<open>recordViewEnd(index, action)\<close>. It returns early when there is no restaurant at
  the index; otherwise it reads the clock (\<open>now\<close>) and calls \<^verbatim>\<open>recordInteraction\<close>.
  The callback is created anew whenever \<^verbatim>\<open>restaurants\<close> changes, so it reads the feed
  of the current render, here the feed of the state.
\<close>

definition recordViewEnd :: "int \<Rightarrow> action \<Rightarrow> int \<Rightarrow> feed_screen \<Rightarrow> feed_screen" where
  "recordViewEnd index act now s =
     (case item_at (restaurants s) index of
        None \<Rightarrow> s
      | Some restaurant \<Rightarrow>
          s\<lparr>interactions := interactions s @
              [RecordInteraction (restaurant_id restaurant) act (now - viewStartRef s)]\<rparr>)"

text \<open>
  \<^verbatim>\<open>handleViewableItemsChanged({ viewableItems })\<close>. Each viewable item carries an
  index that is a number or \<^verbatim>\<open>null\<close>; only \<^verbatim>\<open>viewableItems[0]\<close> is read, and an
  empty array or a \<^verbatim>\<open>null\<close> index returns at once. The handler reads the clock
  twice: \<open>now\<close> inside \<^verbatim>\<open>recordViewEnd\<close> and \<open>now'\<close> for the new view start.
\<close>

definition handleViewableItemsChanged ::
  "int option list \<Rightarrow> int \<Rightarrow> int \<Rightarrow> feed_screen \<Rightarrow> feed_screen" where
  "handleViewableItemsChanged viewableItems now now' s =
     (case viewableItems of
        [] \<Rightarrow> s
      | None # _ \<Rightarrow> s
      | Some newIndex # _ \<Rightarrow>
          (let prevIndex = currentIndexRef s in
           if prevIndex \<noteq> newIndex
           then (recordViewEnd prevIndex Skip now s)
                  \<lparr>viewStartRef := now', currentIndexRef := newIndex\<rparr>
           else s))"

text \<open>
  \<^verbatim>\<open>handleLike(index)\<close> and \<^verbatim>\<open>handleUnlike(index)\<close>: the call of
  \<^verbatim>\<open>recordViewEnd\<close>, then the unconditional reset of the view start. Again \<open>now\<close>
  is the clock read inside \<^verbatim>\<open>recordViewEnd\<close> and \<open>now'\<close> the one read for the reset.
\<close>

definition handleLike :: "int \<Rightarrow> int \<Rightarrow> int \<Rightarrow> feed_screen \<Rightarrow> feed_screen" where
  "handleLike index now now' s = (recordViewEnd index Like now s)\<lparr>viewStartRef := now'\<rparr>"

definition handleUnlike :: "int \<Rightarrow> int \<Rightarrow> int \<Rightarrow> feed_screen \<Rightarrow> feed_screen" where
  "handleUnlike index now now' s = (recordViewEnd index Unlike now s)\<lparr>viewStartRef := now'\<rparr>"

text \<open>
  The two operations of the tracker as the specification names them:
  a report of the dominant index is a viewability callback with that one item, and a
  user action is one of the two handlers above (a skip is never a user action).
\<close>

definition onDominantItemChanged ::
  "int option \<Rightarrow> int \<Rightarrow> int \<Rightarrow> feed_screen \<Rightarrow> feed_screen" where
  "onDominantItemChanged newIndex now now' s =
     handleViewableItemsChanged [newIndex] now now' s"

datatype user_action = UserLike | UserUnlike

fun action_of :: "user_action \<Rightarrow> action" where
  "action_of UserLike = Like"
| "action_of UserUnlike = Unlike"

fun onUserAction :: "int \<Rightarrow> user_action \<Rightarrow> int \<Rightarrow> int \<Rightarrow> feed_screen \<Rightarrow> feed_screen" where
  "onUserAction index UserLike now now' s = handleLike index now now' s"
| "onUserAction index UserUnlike now now' s = handleUnlike index now now' s"

section \<open>The like toggle of a card\<close>

text \<open>
  The state of one \<^verbatim>\<open>ActionBar\<close>: the \<^verbatim>\<open>liked\<close> cell, and how many times the
  emphasis animation was started.
\<close>

record action_bar =
  liked :: bool
  animations :: nat

definition new_action_bar :: action_bar where
  "new_action_bar = \<lparr>liked = False, animations = 0\<rparr>"

text \<open>
  \<^verbatim>\<open>handleToggleLike\<close>, with the two callbacks of the card as state transformers of
  the screen. The handler reads \<^verbatim>\<open>liked\<close> of the current render.
\<close>

definition handleToggleLike ::
  "(feed_screen \<Rightarrow> feed_screen) \<Rightarrow> (feed_screen \<Rightarrow> feed_screen) \<Rightarrow>
   action_bar \<times> feed_screen \<Rightarrow> action_bar \<times> feed_screen" where
  "handleToggleLike onLike onUnlike bs =
     (case bs of (bar, s) \<Rightarrow>
        if liked bar
        then (bar\<lparr>liked := False\<rparr>, onUnlike s)
        else (bar\<lparr>liked := True, animations := Suc (animations bar)\<rparr>, onLike s))"

text \<open>
  \<^verbatim>\<open>renderItem\<close> binds the callbacks of the card at \<open>index\<close> to
  \<^verbatim>\<open>() => handleLike(index)\<close> and \<^verbatim>\<open>() => handleUnlike(index)\<close>; \<open>toggle\<close> is a tap on
  the heart of that card, with the two clock readings of the tap.
\<close>

definition toggle ::
  "int \<Rightarrow> int \<Rightarrow> int \<Rightarrow> action_bar \<times> feed_screen \<Rightarrow> action_bar \<times> feed_screen" where
  "toggle index now now' =
     handleToggleLike (handleLike index now now') (handleUnlike index now now')"

section \<open>Loading the feed\<close>

text \<open>
  A value thrown in JavaScript is an \<^verbatim>\<open>Error\<close> with its message, or anything else.
\<close>

datatype thrown = Error string | NonError

text \<open>
  The session of the Supabase client, as far as the source reads it: the access token
  (the empty string is falsy) and the user, whose \<^verbatim>\<open>id\<close> is named \<open>auth_user_id\<close>.
  The client itself (\<^verbatim>\<open>./supabase\<close>) is a library: what \<^verbatim>\<open>auth.getSession()\<close> resolves
  to is a parameter of the functions below, a session or \<^verbatim>\<open>null\<close>.
\<close>

record auth_user =
  auth_user_id :: string

record session =
  access_token :: string
  user :: "auth_user option"

text \<open>
  The response of the edge function: the \<^verbatim>\<open>ok\<close> flag and what \<^verbatim>\<open>response.json()\<close>
  gives, a rejection or an object of which the fields \<^verbatim>\<open>error\<close> and \<^verbatim>\<open>restaurants\<close>
  are read (each may be missing).
\<close>

record json_body =
  error_field :: "string option"
  restaurants_field :: "restaurant list option"

record http_response =
  ok :: bool
  json :: "thrown + json_body"

text \<open>
  \<^verbatim>\<open>fetchRestaurants(lat, lng, radius)\<close>. The session only adds a request header, and
  the coordinates only go into the request body; \<open>fetch\<close> is the outcome of the request:
  a rejection or a response.
\<close>

definition fetchRestaurants ::
  "session option \<Rightarrow> thrown + http_response \<Rightarrow> thrown + restaurant list" where
  "fetchRestaurants getSession fetch =
     (case fetch of
        Inl e \<Rightarrow> Inl e
      | Inr response \<Rightarrow>
          if \<not> ok response
          then (let err = (case json response of
                             Inl _ \<Rightarrow> \<lparr>error_field = None, restaurants_field = None\<rparr>
                           | Inr body \<Rightarrow> body)
                in Inl (Error (case error_field err of
                                 None \<Rightarrow> ''Failed to fetch restaurants''
                               | Some m \<Rightarrow> m)))
          else (case json response of
                  Inl e \<Rightarrow> Inl e
                | Inr body \<Rightarrow>
                    Inr (case restaurants_field body of None \<Rightarrow> [] | Some rs \<Rightarrow> rs)))"

text \<open>
  What the three awaited calls of \<^verbatim>\<open>loadRestaurants\<close> resolve to: the permission
  request (its \<^verbatim>\<open>status\<close>), the position (its coordinates, of any type \<open>'c\<close>), and
  \<^verbatim>\<open>fetchRestaurants\<close> at those coordinates. Each may reject instead.
\<close>

record 'c services =
  requestForegroundPermissions :: "thrown + string"
  getCurrentPosition :: "thrown + 'c"
  fetched :: "'c \<Rightarrow> thrown + restaurant list"

text \<open>The \<^verbatim>\<open>catch\<close> block followed by the \<^verbatim>\<open>finally\<close> block.\<close>

definition load_caught :: "thrown \<Rightarrow> feed_screen \<Rightarrow> feed_screen" where
  "load_caught e s =
     s\<lparr>error := Some (case e of Error message \<Rightarrow> message
                               | NonError \<Rightarrow> ''Failed to load restaurants''),
       restaurants := [], loading := False\<rparr>"

text \<open>
  \<^verbatim>\<open>loadRestaurants\<close> in two steps, since the handlers of the screen may run while the
  load is awaited: the two synchronous assignments before the first \<^verbatim>\<open>await\<close>, and
  the rest, up to and including the \<^verbatim>\<open>finally\<close> block. Neither step reads the clock
  or touches the two refs.
\<close>

definition loadRestaurants_begin :: "feed_screen \<Rightarrow> feed_screen" where
  "loadRestaurants_begin s = s\<lparr>loading := True, error := None\<rparr>"

definition loadRestaurants_resolve :: "'c services \<Rightarrow> feed_screen \<Rightarrow> feed_screen" where
  "loadRestaurants_resolve env s =
     (case requestForegroundPermissions env of
        Inl e \<Rightarrow> load_caught e s
      | Inr status \<Rightarrow>
          if status \<noteq> ''granted''
          then s\<lparr>error := Some ''Location permission is required to find nearby restaurants.'',
                 restaurants := [], loading := False\<rparr>
          else (case getCurrentPosition env of
                  Inl e \<Rightarrow> load_caught e s
                | Inr coords \<Rightarrow>
                    (case fetched env coords of
                       Inl e \<Rightarrow> load_caught e s
                     | Inr data \<Rightarrow> s\<lparr>restaurants := data, loading := False\<rparr>)))"

definition loadRestaurants :: "'c services \<Rightarrow> feed_screen \<Rightarrow> feed_screen" where
  "loadRestaurants env s = loadRestaurants_resolve env (loadRestaurants_begin s)"

text \<open>
  The two outcomes of a load, read off the services: it succeeds with \<open>data\<close> when the
  permission is granted and the position and the fetch resolve; it fails when the
  permission request, the position or the fetch rejects, or the permission is not granted.
\<close>

definition load_succeeds :: "'c services \<Rightarrow> restaurant list \<Rightarrow> bool" where
  "load_succeeds env data =
     (case requestForegroundPermissions env of
        Inl _ \<Rightarrow> False
      | Inr status \<Rightarrow>
          status = ''granted'' \<and>
          (case getCurrentPosition env of
             Inl _ \<Rightarrow> False
           | Inr coords \<Rightarrow> fetched env coords = Inr data))"

definition load_fails :: "'c services \<Rightarrow> bool" where
  "load_fails env =
     (case requestForegroundPermissions env of
        Inl _ \<Rightarrow> True
      | Inr status \<Rightarrow>
          (if status = ''granted''
           then (case getCurrentPosition env of
                   Inl _ \<Rightarrow> True
                 | Inr coords \<Rightarrow> (case fetched env coords of Inl _ \<Rightarrow> True | Inr _ \<Rightarrow> False))
           else True))"

section \<open>The event sink\<close>

text \<open>
  A row of the table \<^verbatim>\<open>restaurant_interactions\<close> as \<^verbatim>\<open>recordInteraction\<close> writes it
  (the column \<^verbatim>\<open>action\<close> is named \<open>action'\<close>).
\<close>

record interaction_row =
  user_id :: string
  place_id :: string
  action' :: action
  time_spent_ms :: int

text \<open>
  \<^verbatim>\<open>recordInteraction(placeId, action, timeSpentMs)\<close> on the list of rows handed to
  \<^verbatim>\<open>insert\<close> so far. The outcome of the insert is not read by the source. The result
  is a sum so that a rejection would be a value; no path of the function produces one.
\<close>

definition recordInteraction ::
  "session option \<Rightarrow> string \<Rightarrow> action \<Rightarrow> int \<Rightarrow> interaction_row list \<Rightarrow>
   thrown + interaction_row list" where
  "recordInteraction getSession placeId action timeSpentMs inserted =
     (case getSession of
        None \<Rightarrow> Inr inserted
      | Some session \<Rightarrow>
          (case user session of
             None \<Rightarrow> Inr inserted
           | Some u \<Rightarrow>
               Inr (inserted @
                 [\<lparr>user_id = auth_user_id u, place_id = placeId, action' = action,
                   time_spent_ms = timeSpentMs\<rparr>])))"

section \<open>Sequences of reports and the properties as the specification words them\<close>

text \<open>
  A run of dominant-index reports, each with its index and the two clock readings of the
  handler, oldest first.
\<close>

fun reports :: "(int \<times> int \<times> int) list \<Rightarrow> feed_screen \<Rightarrow> feed_screen" where
  "reports [] s = s"
| "reports ((newIndex, now, now') # rs) s =
     reports rs (onDominantItemChanged (Some newIndex) now now' s)"

text \<open>A report handled within one tick of the clock: both readings are the same.\<close>

definition at_instant :: "int \<times> int \<Rightarrow> int \<times> int \<times> int" where
  "at_instant r = (fst r, snd r, snd r)"

text \<open>
  The skip events the specification expects of the reports \<open>[(i0, t0), (i1, t1), ...]\<close>:
  one per adjacent pair, for the item of the earlier report, with the time between the
  two reports as dwell.
\<close>

fun claimed_skips :: "restaurant list \<Rightarrow> (int \<times> int) list \<Rightarrow> interaction list" where
  "claimed_skips feed ((i, t) # (j, u) # rest) =
     RecordInteraction (restaurant_id (feed ! nat i)) Skip (u - t) #
     claimed_skips feed ((j, u) # rest)"
| "claimed_skips feed _ = []"

text \<open>
  The skip events of the reports \<open>rs\<close> counted from the state of the tracker: the
  \<open>k\<close>-th is for the item at the index current before report \<open>k\<close>, and its dwell runs
  from the view start left by the report before it (\<open>c\<close> and \<open>v\<close> for the first).
\<close>

definition skip_events ::
  "restaurant list \<Rightarrow> int \<Rightarrow> int \<Rightarrow> (int \<times> int \<times> int) list \<Rightarrow> interaction list" where
  "skip_events feed c v rs =
     map (\<lambda>k. RecordInteraction
                 (restaurant_id (feed ! nat ((c # map fst rs) ! k))) Skip
                 (fst (snd (rs ! k)) - (v # map (snd \<circ> snd) rs) ! k))
       [0..<length rs]"

text \<open>
  The reset the specification expects of a load that resolves at \<open>now\<close> with \<open>data\<close>.
\<close>

definition reset_by_load :: "int \<Rightarrow> restaurant list \<Rightarrow> feed_screen \<Rightarrow> bool" where
  "reset_by_load now data s' \<longleftrightarrow>
     restaurants s' = data \<and> currentIndexRef s' = 0 \<and> viewStartRef s' = now"

text \<open>
  A call that is ignored, in the words of the specification: from \<open>s\<close> to \<open>s'\<close> no
  event is emitted and \<open>currentIndex\<close>, \<open>viewStart\<close> and the feed stay as they are.
\<close>

definition ignored :: "feed_screen \<Rightarrow> feed_screen \<Rightarrow> bool" where
  "ignored s s' \<longleftrightarrow>
     interactions s' = interactions s \<and> currentIndexRef s' = currentIndexRef s \<and>
     viewStartRef s' = viewStartRef s \<and> restaurants s' = restaurants s"

section \<open>Example data\<close>

definition alpha :: restaurant where
  "alpha = \<lparr>restaurant_id = ''a'', name = ''Alpha'', address = ''1 Main St'', cuisine = None\<rparr>"

definition beta :: restaurant where
  "beta = \<lparr>restaurant_id = ''b'', name = ''Beta'', address = ''2 Main St'',
            cuisine = Some ''thai_food''\<rparr>"

text \<open>Services that grant the permission, give a position and fetch \<open>feed\<close>.\<close>

definition services_with :: "restaurant list \<Rightarrow> unit services" where
  "services_with feed =
     \<lparr>requestForegroundPermissions = Inr ''granted'', getCurrentPosition = Inr (),
      fetched = (\<lambda>_. Inr feed)\<rparr>"

text \<open>Services whose permission request resolves to a denial.\<close>

definition services_denied :: "unit services" where
  "services_denied =
     \<lparr>requestForegroundPermissions = Inr ''denied'', getCurrentPosition = Inr (),
      fetched = (\<lambda>_. Inr [alpha])\<rparr>"

text \<open>
  Services whose fetch fails: the edge function answers with a status that is not ok and
  a body that is not JSON, and the caller has no session.
\<close>

definition services_unreachable :: "unit services" where
  "services_unreachable =
     \<lparr>requestForegroundPermissions = Inr ''granted'', getCurrentPosition = Inr (),
      fetched = (\<lambda>_. fetchRestaurants None (Inr \<lparr>ok = False, json = Inl NonError\<rparr>))\<rparr>"

text \<open>The screen mounted at \<open>now\<close> whose first load has resolved with \<open>feed\<close>.\<close>

definition displayed :: "restaurant list \<Rightarrow> int \<Rightarrow> feed_screen" where
  "displayed feed now = loadRestaurants (services_with feed) (mount now)"

section \<open>Basic facts\<close>

lemma displayed_eq:
  "displayed feed now = \<lparr>restaurants = feed, loading = False, error = None,
      viewStartRef = now, currentIndexRef = 0, interactions = []\<rparr>"
  by (simp add: displayed_def services_with_def loadRestaurants_def loadRestaurants_resolve_def
      loadRestaurants_begin_def mount_def)


lemma item_at_Some_iff:
  "item_at xs i = Some x \<longleftrightarrow> 0 \<le> i \<and> i < int (length xs) \<and> x = xs ! nat i"
  by (auto simp: item_at_def)

lemma item_at_None_iff: "item_at xs i = None \<longleftrightarrow> i < 0 \<or> int (length xs) \<le> i"
  by (auto simp: item_at_def)

lemma recordViewEnd_frame:
  "restaurants (recordViewEnd i a t s) = restaurants s"
  "currentIndexRef (recordViewEnd i a t s) = currentIndexRef s"
  "viewStartRef (recordViewEnd i a t s) = viewStartRef s"
  "loading (recordViewEnd i a t s) = loading s"
  "error (recordViewEnd i a t s) = error s"
  by (simp_all add: recordViewEnd_def split: option.split)

lemma recordViewEnd_None:
  "item_at (restaurants s) i = None \<Longrightarrow> recordViewEnd i a t s = s"
  by (simp add: recordViewEnd_def)

lemma recordViewEnd_Some:
  "item_at (restaurants s) i = Some r \<Longrightarrow>
   interactions (recordViewEnd i a t s) =
     interactions s @ [RecordInteraction (restaurant_id r) a (t - viewStartRef s)]"
  by (simp add: recordViewEnd_def)

lemma handleLike_frame:
  "restaurants (handleLike i t t' s) = restaurants s"
  "currentIndexRef (handleLike i t t' s) = currentIndexRef s"
  "loading (handleLike i t t' s) = loading s"
  "error (handleLike i t t' s) = error s"
  "viewStartRef (handleLike i t t' s) = t'"
  by (simp_all add: handleLike_def recordViewEnd_frame)

lemma handleUnlike_frame:
  "restaurants (handleUnlike i t t' s) = restaurants s"
  "currentIndexRef (handleUnlike i t t' s) = currentIndexRef s"
  "loading (handleUnlike i t t' s) = loading s"
  "error (handleUnlike i t t' s) = error s"
  "viewStartRef (handleUnlike i t t' s) = t'"
  by (simp_all add: handleUnlike_def recordViewEnd_frame)

lemma onUserAction_frame:
  "restaurants (onUserAction i a t t' s) = restaurants s"
  "currentIndexRef (onUserAction i a t t' s) = currentIndexRef s"
  "loading (onUserAction i a t t' s) = loading s"
  "error (onUserAction i a t t' s) = error s"
  "viewStartRef (onUserAction i a t t' s) = t'"
  by (cases a; simp add: handleLike_frame handleUnlike_frame)+

lemma onUserAction_interactions:
  "interactions (onUserAction i a t t' s) = interactions (recordViewEnd i (action_of a) t s)"
  by (cases a) (simp_all add: handleLike_def handleUnlike_def)

lemma report_frame:
  "restaurants (handleViewableItemsChanged items t t' s) = restaurants s"
  by (simp add: handleViewableItemsChanged_def Let_def recordViewEnd_frame
      split: list.split option.split)

lemma report_changed:
  assumes "item_at (restaurants s) (currentIndexRef s) = Some r" and "j \<noteq> currentIndexRef s"
  shows "restaurants (onDominantItemChanged (Some j) t t' s) = restaurants s"
    and "currentIndexRef (onDominantItemChanged (Some j) t t' s) = j"
    and "viewStartRef (onDominantItemChanged (Some j) t t' s) = t'"
    and "interactions (onDominantItemChanged (Some j) t t' s) =
           interactions s @ [RecordInteraction (restaurant_id r) Skip (t - viewStartRef s)]"
  using assms
  by (simp_all add: onDominantItemChanged_def handleViewableItemsChanged_def Let_def
      recordViewEnd_frame recordViewEnd_Some)

lemma report_any:
  "restaurants (onDominantItemChanged (Some j) t t' s) = restaurants s"
  "currentIndexRef (onDominantItemChanged (Some j) t t' s) = j"
  "viewStartRef (onDominantItemChanged (Some j) t t' s) =
     (if j = currentIndexRef s then viewStartRef s else t')"
  "interactions (onDominantItemChanged (Some j) t t' s) =
     (if j = currentIndexRef s then interactions s
      else (case item_at (restaurants s) (currentIndexRef s) of
              None \<Rightarrow> interactions s
            | Some r \<Rightarrow> interactions s @
                [RecordInteraction (restaurant_id r) Skip (t - viewStartRef s)]))"
  by (auto simp: onDominantItemChanged_def handleViewableItemsChanged_def Let_def
      recordViewEnd_def split: option.split)

lemma handleViewableItemsChanged_empty_feed:
  "restaurants s = [] \<Longrightarrow>
   interactions (handleViewableItemsChanged items t t' s) = interactions s"
  by (simp add: handleViewableItemsChanged_def recordViewEnd_def item_at_def Let_def
      split: list.split option.split)

lemma load_fails_state:
  "load_fails env \<Longrightarrow>
   restaurants (loadRestaurants env s) = [] \<and> error (loadRestaurants env s) \<noteq> None
   \<and> loading (loadRestaurants env s) = False
   \<and> interactions (loadRestaurants env s) = interactions s"
  by (auto simp: load_fails_def loadRestaurants_def loadRestaurants_resolve_def
      loadRestaurants_begin_def load_caught_def split: sum.splits if_splits)

subsection \<open>Runs of reports\<close>

lemma skip_events_Nil: "skip_events feed c v [] = []"
  by (simp add: skip_events_def)

lemma skip_events_Cons:
  "skip_events feed c v ((j, t, t') # rs) =
     RecordInteraction (restaurant_id (feed ! nat c)) Skip (t - v) # skip_events feed j t' rs"
proof -
  have "[0..<length ((j, t, t') # rs)] = 0 # map Suc [0..<length rs]"
    by (simp add: upt_conv_Cons map_Suc_upt del: upt_Suc)
  then show ?thesis
    by (simp add: skip_events_def comp_def del: upt_Suc)
qed

lemma reports_skip_events:
  "\<forall>i \<in> set (currentIndexRef s # map fst rs). 0 \<le> i \<and> i < int (length (restaurants s)) \<Longrightarrow>
   distinct_adj (currentIndexRef s # map fst rs) \<Longrightarrow>
   interactions (reports rs s) =
     interactions s @ skip_events (restaurants s) (currentIndexRef s) (viewStartRef s) rs
   \<and> restaurants (reports rs s) = restaurants s
   \<and> currentIndexRef (reports rs s) = last (currentIndexRef s # map fst rs)
   \<and> viewStartRef (reports rs s) = last (viewStartRef s # map (snd \<circ> snd) rs)"
proof (induction rs arbitrary: s)
  case Nil
  show ?case by (simp add: skip_events_Nil)
next
  case (Cons x rs)
  obtain j t t' where x: "x = (j, t, t')" by (cases x)
  let ?s' = "onDominantItemChanged (Some j) t t' s"
  from Cons.prems(1) have cur: "item_at (restaurants s) (currentIndexRef s) =
      Some (restaurants s ! nat (currentIndexRef s))"
    by (simp add: item_at_def)
  from Cons.prems(2) have ne: "j \<noteq> currentIndexRef s" by (auto simp: x)
  note step = report_changed [OF cur ne, of t t']
  have v: "\<forall>i \<in> set (currentIndexRef ?s' # map fst rs).
             0 \<le> i \<and> i < int (length (restaurants ?s'))"
    using Cons.prems(1) by (simp add: step x)
  have d: "distinct_adj (currentIndexRef ?s' # map fst rs)"
    using Cons.prems(2) by (simp add: step x)
  from Cons.IH [OF v d] show ?case
    by (simp add: x step skip_events_Cons)
qed

section \<open>Claims\<close>

subsection \<open>C1: one skip per adjacent pair of reports\<close>

text \<open>
  C1, as the specification states it, fails on the code. The screen is mounted at time 0
  and shows the feed \<open>[alpha, beta]\<close>. In the first run the list reports index 0 at
  100 and index 1 at 300: the first report equals the current index, so it does not
  restart the clock, and the one skip carries the dwell 300 since the mount, not the 200
  between the two reports. In the second run the reports are index 1 at 100 and index 0
  at 300: the first report already leaves index 0, so two skips are emitted for the one
  adjacent pair.
\<close>

theorem skip_dwell_counterexample:
  "interactions (reports (map at_instant [(0, 100), (1, 300)]) (displayed [alpha, beta] 0)) =
     [RecordInteraction ''a'' Skip 300]
   \<and> claimed_skips [alpha, beta] [(0, 100), (1, 300)] = [RecordInteraction ''a'' Skip 200]
   \<and> interactions (reports (map at_instant [(1, 100), (0, 300)]) (displayed [alpha, beta] 0)) =
     [RecordInteraction ''a'' Skip 100, RecordInteraction ''b'' Skip 200]
   \<and> claimed_skips [alpha, beta] [(1, 100), (0, 300)] = [RecordInteraction ''b'' Skip 200]"
  by (simp add: at_instant_def displayed_eq onDominantItemChanged_def
      handleViewableItemsChanged_def recordViewEnd_def item_at_def alpha_def beta_def)

text \<open>
  C1 (amended). Let \<open>[i0, i1, ..., in]\<close> be reports with valid indices and no two
  consecutive ones equal. The reports after the first emit exactly \<open>n\<close> skip events, one
  per adjacent pair; the \<open>k\<close>-th carries the id of the feed item at \<open>i(k-1)\<close>, and its
  dwell is the clock read in report \<open>k\<close> minus the view start set by report \<open>k-1\<close>.
  For \<open>k = 1\<close> that is the clock of the first report only when the first report changed
  the current index; when \<open>i0\<close> was already current, the first report does not restart
  the clock and the dwell runs from the view start held before. The first report itself
  emits nothing when \<open>i0\<close> was current, and otherwise one further skip, for the item at
  the index it replaces (when that index has an item).
\<close>

theorem skips_of_report_sequence:
  assumes "\<forall>i \<in> set (i0 # map fst rs). 0 \<le> i \<and> i < int (length (restaurants s))"
    and "distinct_adj (i0 # map fst rs)"
  shows "interactions (reports ((i0, t0, t0') # rs) s) =
           interactions (onDominantItemChanged (Some i0) t0 t0' s) @
           map (\<lambda>k. RecordInteraction
                       (restaurant_id (restaurants s ! nat ((i0 # map fst rs) ! k)))
                       Skip
                       (fst (snd (rs ! k)) -
                        ((if i0 = currentIndexRef s then viewStartRef s else t0') #
                           map (\<lambda>r. snd (snd r)) rs) ! k))
             [0..<length rs]
         \<and> interactions (onDominantItemChanged (Some i0) t0 t0' s) =
             (if i0 = currentIndexRef s then interactions s
              else (case item_at (restaurants s) (currentIndexRef s) of
                      None \<Rightarrow> interactions s
                    | Some r \<Rightarrow> interactions s @
                        [RecordInteraction (restaurant_id r) Skip (t0 - viewStartRef s)]))"
proof -
  let ?s1 = "onDominantItemChanged (Some i0) t0 t0' s"
  have v: "\<forall>i \<in> set (currentIndexRef ?s1 # map fst rs).
             0 \<le> i \<and> i < int (length (restaurants ?s1))"
    using assms(1) by (simp add: report_any)
  have d: "distinct_adj (currentIndexRef ?s1 # map fst rs)"
    using assms(2) by (simp add: report_any)
  from reports_skip_events [OF v d]
  have "interactions (reports rs ?s1) =
      interactions ?s1 @ skip_events (restaurants s) i0
        (if i0 = currentIndexRef s then viewStartRef s else t0') rs"
    by (simp add: report_any)
  then show ?thesis
    by (simp add: skip_events_def report_any(4) comp_def)
qed

theorem skips_of_report_sequence_witness:
  "interactions
     (reports [(0, 100, 100), (1, 300, 300), (0, 450, 451), (1, 1000, 1000)]
        (displayed [alpha, beta] 0)) =
     [RecordInteraction ''a'' Skip 300, RecordInteraction ''b'' Skip 150,
      RecordInteraction ''a'' Skip 549]
   \<and> interactions
     (reports [(1, 100, 100), (0, 300, 300)] (displayed [alpha, beta] 0)) =
     [RecordInteraction ''a'' Skip 100, RecordInteraction ''b'' Skip 200]"
proof -
  let ?s = "displayed [alpha, beta] 0"
  let ?rs = "[(1, 300, 300), (0, 450, 451), (1, 1000, 1000)] :: (int \<times> int \<times> int) list"
  let ?qs = "[(0, 300, 300)] :: (int \<times> int \<times> int) list"
  have v: "\<forall>i \<in> set (0 # map fst ?rs). 0 \<le> i \<and> i < int (length (restaurants ?s))"
    by (simp add: displayed_eq)
  have d: "distinct_adj (0 # map fst ?rs)" by simp
  have v': "\<forall>i \<in> set (1 # map fst ?qs). 0 \<le> i \<and> i < int (length (restaurants ?s))"
    by (simp add: displayed_eq)
  have d': "distinct_adj (1 # map fst ?qs)" by simp
  have u: "[0..<3] = [0, 1, 2]" by (simp add: upt_conv_Cons)
  from skips_of_report_sequence [OF v d, of 100 100]
    skips_of_report_sequence [OF v' d', of 100 100]
  show ?thesis
    by (simp add: displayed_eq alpha_def beta_def u item_at_def)
qed

subsection \<open>C2: what a successful load resets\<close>

text \<open>
  C2, as the specification states it, fails on the code: \<^verbatim>\<open>loadRestaurants\<close> never
  assigns the two refs. A screen mounted at time 0 whose load resolves later, say at
  1000, still has the view start 0; and a load that resolves after the list has moved to
  index 1 leaves the current index 1.
\<close>

theorem load_does_not_reset_counterexample:
  "load_succeeds (services_with [beta]) [beta]
   \<and> \<not> reset_by_load 1000 [beta] (loadRestaurants (services_with [beta]) (mount 0))
   \<and> \<not> reset_by_load 1000 [beta]
        (loadRestaurants (services_with [beta])
           (onDominantItemChanged (Some 1) 400 400 (displayed [alpha, beta] 0)))"
  by (simp add: load_succeeds_def services_with_def reset_by_load_def loadRestaurants_def
      loadRestaurants_resolve_def loadRestaurants_begin_def mount_def displayed_def
      onDominantItemChanged_def handleViewableItemsChanged_def recordViewEnd_def item_at_def)

text \<open>
  C2 (amended). A successful load replaces the feed wholesale by the fetched data, clears
  the error and the loading flag, and leaves the current index, the view start and the
  emitted events as they were.
\<close>

theorem load_success_keeps_refs:
  assumes "load_succeeds env data"
  shows "restaurants (loadRestaurants env s) = data
         \<and> error (loadRestaurants env s) = None
         \<and> loading (loadRestaurants env s) = False
         \<and> currentIndexRef (loadRestaurants env s) = currentIndexRef s
         \<and> viewStartRef (loadRestaurants env s) = viewStartRef s
         \<and> interactions (loadRestaurants env s) = interactions s"
  using assms
  by (auto simp: load_succeeds_def loadRestaurants_def loadRestaurants_resolve_def
      loadRestaurants_begin_def split: sum.splits)

theorem load_success_keeps_refs_witness:
  "load_succeeds (services_with [beta]) [beta]
   \<and> restaurants (loadRestaurants (services_with [beta])
        (onDominantItemChanged (Some 1) 400 400 (displayed [alpha, beta] 0))) = [beta]
   \<and> currentIndexRef (loadRestaurants (services_with [beta])
        (onDominantItemChanged (Some 1) 400 400 (displayed [alpha, beta] 0))) = 1
   \<and> viewStartRef (loadRestaurants (services_with [beta])
        (onDominantItemChanged (Some 1) 400 400 (displayed [alpha, beta] 0))) = 400"
proof -
  have h: "load_succeeds (services_with [beta]) [beta]"
    by (simp add: load_succeeds_def services_with_def)
  have c: "currentIndexRef (onDominantItemChanged (Some 1) 400 400 (displayed [alpha, beta] 0)) = 1"
    and v: "viewStartRef (onDominantItemChanged (Some 1) 400 400 (displayed [alpha, beta] 0)) = 400"
    by (simp_all add: displayed_eq onDominantItemChanged_def handleViewableItemsChanged_def
        recordViewEnd_frame)
  from load_success_keeps_refs [OF h,
      of "onDominantItemChanged (Some 1) 400 400 (displayed [alpha, beta] 0)"] h c v
  show ?thesis by simp
qed

subsection \<open>C3: calls with an index that is null or out of range\<close>

text \<open>
  C3, as the specification states it, fails on the code. On the feed \<open>[alpha, beta]\<close>
  index 7 has no item. A report of 7 emits a skip for the current item, makes 7 the
  current index and restarts the clock; a like at 7 emits nothing but restarts the clock.
\<close>

theorem invalid_index_counterexample:
  "item_at (restaurants (displayed [alpha, beta] 0)) 7 = None
   \<and> \<not> ignored (displayed [alpha, beta] 0)
          (onDominantItemChanged (Some 7) 300 300 (displayed [alpha, beta] 0))
   \<and> \<not> ignored (displayed [alpha, beta] 0)
          (onUserAction 7 UserLike 300 300 (displayed [alpha, beta] 0))"
  by (simp add: ignored_def displayed_eq onDominantItemChanged_def handleLike_def
      handleViewableItemsChanged_def recordViewEnd_def item_at_def)

text \<open>
  C3 (amended). A report of \<^verbatim>\<open>null\<close>, or of no viewable item, is ignored: the state is
  the one before the call. No operation of the tracker raises, and none changes the feed.
  For an index with no item in the feed: a user action emits no event and keeps the
  current index, but sets the view start to the clock; a report of such an index that
  differs from the current index is taken like any other report: it emits the skip for
  the current item (when that one exists), becomes the current index, and sets the view
  start to the clock.
\<close>

theorem invalid_index_handling:
  "onDominantItemChanged None now now' s = s
   \<and> handleViewableItemsChanged [] now now' s = s
   \<and> (item_at (restaurants s) index = None \<longrightarrow>
        ignored s ((onUserAction index a now now' s)\<lparr>viewStartRef := viewStartRef s\<rparr>)
        \<and> viewStartRef (onUserAction index a now now' s) = now'
        \<and> restaurants (onDominantItemChanged (Some index) now now' s) = restaurants s
        \<and> (index \<noteq> currentIndexRef s \<longrightarrow>
             currentIndexRef (onDominantItemChanged (Some index) now now' s) = index
             \<and> viewStartRef (onDominantItemChanged (Some index) now now' s) = now'
             \<and> interactions (onDominantItemChanged (Some index) now now' s) =
                 (case item_at (restaurants s) (currentIndexRef s) of
                    None \<Rightarrow> interactions s
                  | Some r \<Rightarrow> interactions s @
                      [RecordInteraction (restaurant_id r) Skip (now - viewStartRef s)])))"
proof -
  have a: "onDominantItemChanged None now now' s = s"
    "handleViewableItemsChanged [] now now' s = s"
    by (simp_all add: onDominantItemChanged_def handleViewableItemsChanged_def)
  have b: "ignored s ((onUserAction index a now now' s)\<lparr>viewStartRef := viewStartRef s\<rparr>)"
    if "item_at (restaurants s) index = None"
    using that by (simp add: ignored_def onUserAction_frame onUserAction_interactions
        recordViewEnd_None)
  have c: "restaurants (onDominantItemChanged (Some index) now now' s) = restaurants s"
    by (simp add: onDominantItemChanged_def report_frame)
  have d: "currentIndexRef (onDominantItemChanged (Some index) now now' s) = index
        \<and> viewStartRef (onDominantItemChanged (Some index) now now' s) = now'
        \<and> interactions (onDominantItemChanged (Some index) now now' s) =
                 (case item_at (restaurants s) (currentIndexRef s) of
                    None \<Rightarrow> interactions s
                  | Some r \<Rightarrow> interactions s @
                      [RecordInteraction (restaurant_id r) Skip (now - viewStartRef s)])"
    if "index \<noteq> currentIndexRef s"
    using that by (simp add: onDominantItemChanged_def handleViewableItemsChanged_def Let_def
        recordViewEnd_def split: option.split)
  from a b c d show ?thesis by (simp add: onUserAction_frame)
qed

theorem invalid_index_handling_witness:
  "onDominantItemChanged None 300 301 (displayed [alpha, beta] 0) = displayed [alpha, beta] 0
   \<and> item_at (restaurants (displayed [alpha, beta] 0)) 7 = None
   \<and> 7 \<noteq> currentIndexRef (displayed [alpha, beta] 0)
   \<and> viewStartRef (onUserAction 7 UserUnlike 300 301 (displayed [alpha, beta] 0)) = 301
   \<and> interactions (onUserAction 7 UserUnlike 300 301 (displayed [alpha, beta] 0)) = []
   \<and> currentIndexRef (onDominantItemChanged (Some 7) 300 301 (displayed [alpha, beta] 0)) = 7
   \<and> viewStartRef (onDominantItemChanged (Some 7) 300 301 (displayed [alpha, beta] 0)) = 301
   \<and> interactions (onDominantItemChanged (Some 7) 300 301 (displayed [alpha, beta] 0)) =
       [RecordInteraction ''a'' Skip 300]"
proof -
  have h: "item_at (restaurants (displayed [alpha, beta] 0)) 7 = None"
    by (simp add: displayed_eq item_at_def)
  have n: "7 \<noteq> currentIndexRef (displayed [alpha, beta] 0)"
    by (simp add: displayed_eq)
  from invalid_index_handling [of 300 301 "displayed [alpha, beta] 0" 7 UserUnlike] h n
  show ?thesis by (simp add: displayed_eq item_at_def ignored_def alpha_def)
qed

subsection \<open>C4: a user action emits one event and restarts the clock\<close>

text \<open>
  C4. For an index with an item in the feed, a user action (like or unlike) emits exactly
  one event: the id of that item, the action, and as dwell the clock minus the view start
  held at the call; then the view start is the clock. Consequently, when the item acted
  on is the current one and the list then moves to another index, the skip that follows
  measures its dwell from the action: an item shown at 0, liked at 500 and left at 800
  gives a like with dwell 500 and then a skip with dwell 300.
\<close>

theorem user_action_emits_one:
  assumes "item_at (restaurants s) index = Some r"
  shows "interactions (onUserAction index a now now' s) =
           interactions s @
             [RecordInteraction (restaurant_id r) (action_of a) (now - viewStartRef s)]
         \<and> viewStartRef (onUserAction index a now now' s) = now'
         \<and> (currentIndexRef s = index \<and> newIndex \<noteq> index \<longrightarrow>
              interactions (onDominantItemChanged (Some newIndex) later later'
                              (onUserAction index a now now' s)) =
                interactions s @
                  [RecordInteraction (restaurant_id r) (action_of a) (now - viewStartRef s),
                   RecordInteraction (restaurant_id r) Skip (later - now')])"
proof -
  let ?s' = "onUserAction index a now now' s"
  have e: "interactions ?s' =
      interactions s @ [RecordInteraction (restaurant_id r) (action_of a) (now - viewStartRef s)]"
    using assms by (simp add: onUserAction_interactions recordViewEnd_Some)
  have r': "item_at (restaurants ?s') index = Some r"
    using assms by (simp add: onUserAction_frame)
  have "interactions (onDominantItemChanged (Some newIndex) later later' ?s') =
          interactions ?s' @ [RecordInteraction (restaurant_id r) Skip (later - now')]"
    if "currentIndexRef s = index" "newIndex \<noteq> index"
    using that recordViewEnd_Some [OF r', of Skip later]
    by (simp add: onDominantItemChanged_def handleViewableItemsChanged_def
        onUserAction_frame Let_def)
  with e show ?thesis by (simp add: onUserAction_frame)
qed

theorem user_action_emits_one_witness:
  "item_at (restaurants (displayed [alpha, beta] 0)) 0 = Some alpha
   \<and> interactions (onUserAction 0 UserLike 500 500 (displayed [alpha, beta] 0)) =
       [RecordInteraction ''a'' Like 500]
   \<and> viewStartRef (onUserAction 0 UserLike 500 500 (displayed [alpha, beta] 0)) = 500
   \<and> interactions (onDominantItemChanged (Some 1) 800 800
        (onUserAction 0 UserLike 500 500 (displayed [alpha, beta] 0))) =
       [RecordInteraction ''a'' Like 500, RecordInteraction ''a'' Skip 300]"
proof -
  have h: "item_at (restaurants (displayed [alpha, beta] 0)) 0 = Some alpha"
    by (simp add: item_at_def displayed_eq)
  from user_action_emits_one [OF h, of UserLike 500 500 1 800 800] h show ?thesis
    by (simp add: displayed_eq alpha_def)
qed

subsection \<open>C5: two toggles in a row\<close>

text \<open>
  C5. On a card whose index has an item in the feed and whose \<open>liked\<close> is false, two
  taps on the heart, each seeing the state the one before left, emit exactly one like and
  then exactly one unlike for that item, and \<open>liked\<close> is false again. The animation was
  started once, by the first tap.
\<close>

theorem toggle_twice:
  assumes "item_at (restaurants s) index = Some r" and "\<not> liked bar"
  shows "liked (fst (toggle index t2 t2' (toggle index t1 t1' (bar, s)))) = False
         \<and> animations (fst (toggle index t2 t2' (toggle index t1 t1' (bar, s)))) =
             Suc (animations bar)
         \<and> interactions (snd (toggle index t2 t2' (toggle index t1 t1' (bar, s)))) =
             interactions s @
               [RecordInteraction (restaurant_id r) Like (t1 - viewStartRef s),
                RecordInteraction (restaurant_id r) Unlike (t2 - t1')]"
proof -
  have r1: "item_at (restaurants (handleLike index t1 t1' s)) index = Some r"
    using assms(1) by (simp add: handleLike_frame)
  have e1: "interactions (handleLike index t1 t1' s) =
      interactions s @ [RecordInteraction (restaurant_id r) Like (t1 - viewStartRef s)]"
    using assms(1) by (simp add: handleLike_def recordViewEnd_Some)
  have e2: "interactions (handleUnlike index t2 t2' (handleLike index t1 t1' s)) =
      interactions (handleLike index t1 t1' s) @
        [RecordInteraction (restaurant_id r) Unlike (t2 - t1')]"
    using recordViewEnd_Some [OF r1, of Unlike t2]
    by (simp add: handleUnlike_def handleLike_frame)
  have t: "toggle index t2 t2' (toggle index t1 t1' (bar, s)) =
           (bar\<lparr>animations := Suc (animations bar)\<rparr>,
            handleUnlike index t2 t2' (handleLike index t1 t1' s))"
    using assms(2) by (simp add: toggle_def handleToggleLike_def)
  show ?thesis unfolding t using e1 e2 assms(2) by simp
qed

theorem toggle_twice_witness:
  "item_at (restaurants (displayed [alpha, beta] 0)) 0 = Some alpha
   \<and> \<not> liked new_action_bar
   \<and> liked (fst (toggle 0 700 700 (toggle 0 500 500
        (new_action_bar, displayed [alpha, beta] 0)))) = False
   \<and> interactions (snd (toggle 0 700 700 (toggle 0 500 500
        (new_action_bar, displayed [alpha, beta] 0)))) =
       [RecordInteraction ''a'' Like 500, RecordInteraction ''a'' Unlike 200]"
proof -
  have h: "item_at (restaurants (displayed [alpha, beta] 0)) 0 = Some alpha"
    by (simp add: item_at_def displayed_eq)
  have l: "\<not> liked new_action_bar" by (simp add: new_action_bar_def)
  from toggle_twice [OF h l, of 700 700 500 500] h l show ?thesis
    by (simp add: displayed_eq alpha_def)
qed

subsection \<open>C6: a duplicate report\<close>

text \<open>
  C6. A report of the index that is already current emits nothing and changes nothing:
  the whole state, and so \<open>currentIndex\<close>, \<open>viewStart\<close>, the feed and the emitted
  events, is the one before the call. This holds in every state, whatever else the
  viewability callback lists after its first item.
\<close>

theorem duplicate_report_is_noop:
  "handleViewableItemsChanged (Some (currentIndexRef s) # others) now now' s = s
   \<and> onDominantItemChanged (Some (currentIndexRef s)) now now' s = s"
  by (simp add: handleViewableItemsChanged_def onDominantItemChanged_def)

subsection \<open>C7: a failed load\<close>

text \<open>
  C7. When a load fails (the permission is not granted, or the permission request, the
  position or the fetch rejects), the feed is empty and the error is set, a string and
  not \<^verbatim>\<open>null\<close>. A report of any index, or of none, on that state returns a state (the
  handler has no path that throws) and emits no event; the load itself emits none either.
\<close>

theorem load_failure_leaves_empty_feed:
  assumes "load_fails env"
  shows "restaurants (loadRestaurants env s) = []
         \<and> error (loadRestaurants env s) \<noteq> None
         \<and> interactions (onDominantItemChanged newIndex now now' (loadRestaurants env s)) =
             interactions (loadRestaurants env s)
         \<and> interactions (loadRestaurants env s) = interactions s"
  using load_fails_state [OF assms, of s]
  by (simp add: onDominantItemChanged_def handleViewableItemsChanged_empty_feed)

theorem load_failure_leaves_empty_feed_witness:
  "load_fails services_denied \<and> load_fails services_unreachable
   \<and> restaurants (loadRestaurants services_denied (mount 0)) = []
   \<and> error (loadRestaurants services_denied (mount 0)) =
       Some ''Location permission is required to find nearby restaurants.''
   \<and> interactions (onDominantItemChanged (Some 1) 50 50
        (loadRestaurants services_denied (mount 0))) = []
   \<and> restaurants (loadRestaurants services_unreachable (mount 0)) = []
   \<and> error (loadRestaurants services_unreachable (mount 0)) =
       Some ''Failed to fetch restaurants''
   \<and> interactions (onDominantItemChanged (Some 1) 50 50
        (loadRestaurants services_unreachable (mount 0))) = []"
proof -
  have d: "load_fails services_denied"
    by (simp add: load_fails_def services_denied_def)
  have u: "load_fails services_unreachable"
    by (simp add: load_fails_def services_unreachable_def fetchRestaurants_def)
  have m: "interactions (mount 0) = []" by (simp add: mount_def)
  have e1: "error (loadRestaurants services_denied (mount 0)) =
       Some ''Location permission is required to find nearby restaurants.''"
    by (simp add: loadRestaurants_def loadRestaurants_resolve_def loadRestaurants_begin_def
        services_denied_def)
  have e2: "error (loadRestaurants services_unreachable (mount 0)) =
       Some ''Failed to fetch restaurants''"
    by (simp add: loadRestaurants_def loadRestaurants_resolve_def loadRestaurants_begin_def
        services_unreachable_def fetchRestaurants_def load_caught_def)
  from load_failure_leaves_empty_feed [OF d, of "mount 0" "Some 1" 50 50]
    load_failure_leaves_empty_feed [OF u, of "mount 0" "Some 1" 50 50] d u m e1 e2
  show ?thesis by simp
qed

subsection \<open>C8: the frame of a user action\<close>

text \<open>
  C8. A user action (like or unlike) at any index, valid or not, leaves the current index
  and the feed as they were; so are the loading flag and the error. Only the view start
  and the emitted events can differ.
\<close>

theorem user_action_frame:
  "restaurants (onUserAction index a now now' s) = restaurants s
   \<and> currentIndexRef (onUserAction index a now now' s) = currentIndexRef s
   \<and> loading (onUserAction index a now now' s) = loading s
   \<and> error (onUserAction index a now now' s) = error s"
  by (simp add: onUserAction_frame)

subsection \<open>C9: the event sink without a signed-in user\<close>

text \<open>
  C9. \<^verbatim>\<open>recordInteraction\<close> returns without an insert and without an error when there is
  no session, or a session with no user; with a session user it hands exactly one row to
  the insert, after the rows before it: the id of the user, the place id, the action and
  the time spent as given.
\<close>

theorem recordInteraction_cases:
  "recordInteraction None placeId action timeSpentMs inserted = Inr inserted
   \<and> recordInteraction (Some \<lparr>access_token = token, user = None\<rparr>)
        placeId action timeSpentMs inserted = Inr inserted
   \<and> recordInteraction (Some \<lparr>access_token = token, user = Some u\<rparr>)
        placeId action timeSpentMs inserted =
      Inr (inserted @ [\<lparr>user_id = auth_user_id u, place_id = placeId, action' = action,
                         time_spent_ms = timeSpentMs\<rparr>])"
  by (simp add: recordInteraction_def)

subsection \<open>C10: a user action at an index with no item\<close>

text \<open>
  C10. When a user action (like or unlike) is called with an index that has no item in
  the feed, no event is emitted, and yet the view start is set to the clock: the state
  after the call is the state before it with the view start replaced, so the branch that
  emits nothing does not preserve the state.
\<close>

theorem user_action_without_item:
  assumes "item_at (restaurants s) index = None"
  shows "interactions (onUserAction index a now now' s) = interactions s
         \<and> viewStartRef (onUserAction index a now now' s) = now'
         \<and> onUserAction index a now now' s = s\<lparr>viewStartRef := now'\<rparr>"
  using assms by (cases a) (simp_all add: handleLike_def handleUnlike_def recordViewEnd_None)

theorem user_action_without_item_witness:
  "item_at (restaurants (displayed [alpha] 0)) 5 = None
   \<and> interactions (onUserAction 5 UserLike 400 400 (displayed [alpha] 0)) = []
   \<and> viewStartRef (onUserAction 5 UserLike 400 400 (displayed [alpha] 0)) = 400
   \<and> viewStartRef (displayed [alpha] 0) = 0"
proof -
  have h: "item_at (restaurants (displayed [alpha] 0)) 5 = None"
    by (simp add: item_at_def displayed_eq)
  from user_action_without_item [OF h, of UserLike 400 400] h show ?thesis
    by (simp add: displayed_eq)
qed

end
